theory Spec2Isabelle
  imports Complex_Main "HOL-Library.Multiset"
begin

section \<open>Data model of the strategy (src/main.py)\<close>

text \<open>
  A date is the proleptic Gregorian ordinal of a \<^verbatim>\<open>datetime.date\<close>
  (\<^verbatim>\<open>date.toordinal()\<close>); comparing two dates compares their ordinals. Only the date
  part of \<^verbatim>\<open>self.Time\<close> is ever read, and the bounds of the type (years 1 to 9999)
  are left out. Prices, scores and portfolio weights are
  rationals: the source computes them in floating point, and the model keeps the exact
  value of every quotient.
\<close>

type_synonym date = int

datatype Symbol = Symbol (Value: string)

datatype error = KeyError | ValueError | IndexError | NotReadyError | DivisionByZeroError

text \<open>
  Library functions the source calls and the repository does not define:
  \<^verbatim>\<open>datetime.strptime(s, "%Y-%m-%d").date()\<close> (\<open>None\<close> where it raises ValueError) and
  the business-day offset \<^verbatim>\<open>d + BDay(n)\<close> of pandas. They are parameters of the model.
\<close>

record lib =
  strptime :: "string \<Rightarrow> date option"
  BDay :: "date \<Rightarrow> int \<Rightarrow> date"

text \<open>
  One object of the earnings feed after \<^verbatim>\<open>json.loads\<close>:
  \<^verbatim>\<open>{"date": ..., "stocks": [{"ticker": ...}, ...]}\<close>. A key that is missing is \<open>None\<close>;
  reading it raises KeyError.
\<close>

record earnings_obj =
  date_str :: "string option"
  stocks :: "string option list option"

text \<open>
  Modelled from the spec: \<^verbatim>\<open>data_tools.ManagedSymbol\<close> is not among the sources. The
  spec gives its three fields; the constructor call of \<^verbatim>\<open>DaysBefore\<close> passes them in the
  order symbol, date to switch, date to liquidate.
\<close>

record ManagedSymbol =
  symbol :: Symbol
  date_to_switch :: date
  date_to_liquidate :: date

text \<open>
  Modelled from the spec: \<^verbatim>\<open>data_tools.SymbolData\<close> is not among the sources. The spec
  (sections 3 and 4.1) describes a window of at most \<open>capacity\<close> closing prices.
\<close>

record SymbolData =
  window :: "rat list"
  capacity :: nat

text \<open>One entry of the coarse universe the host passes to \<^verbatim>\<open>CoarseSelectionFunction\<close>.\<close>

record coarse_stock =
  stock_Symbol :: Symbol
  AdjustedPrice :: rat
  HasFundamentalData :: bool
  Market :: string
  stock_Price :: rat

text \<open>The two instructions the strategy sends to the host.\<close>

datatype order = SetHoldingsOrder Symbol rat | LiquidateOrder Symbol

datatype universe = Unchanged | Selected "Symbol list"

text \<open>
  The algorithm object \<^verbatim>\<open>self\<close>. The first group of fields belongs to the host
  (\<^verbatim>\<open>QCAlgorithm\<close>): the clock, the parameters, the holdings that
  \<^verbatim>\<open>self.Securities[s].Invested\<close> and \<^verbatim>\<open>self.Portfolio[s].IsLong\<close> read (as a signed
  portfolio weight), price, tradability, the price history, and the log of the orders
  placed. The second group is what \<^verbatim>\<open>Initialize\<close> creates. \<open>earnings_universe\<close> is
  \<^verbatim>\<open>list(earnings_set)\<close>; the source only tests membership in it and logs its length, so
  it is kept as the set. \<open>scheduled\<close> collects the dates given to \<^verbatim>\<open>self.Schedule.On\<close>
  for \<^verbatim>\<open>DaysBefore\<close>.
\<close>

record algo =
  Time :: date
  LiveMode :: bool
  GetParameter :: "string \<Rightarrow> int"
  Holdings :: "Symbol \<Rightarrow> rat"
  Price :: "Symbol \<Rightarrow> rat"
  IsTradable :: "Symbol \<Rightarrow> bool"
  History :: "Symbol \<Rightarrow> int \<Rightarrow> rat list"
  orders :: "order list"
  buyDaysBefore :: int
  sellDaysAfter :: int
  switchDaysAfter :: int
  data :: "Symbol \<rightharpoonup> SymbolData"
  selected_symbols :: "Symbol list"
  managed_symbols :: "ManagedSymbol list"
  earnings :: "date \<rightharpoonup> string list"
  earnings_universe :: "string set"
  scheduled :: "date list"
  months_counter :: int
  selection_flag :: bool

text \<open>The constants \<^verbatim>\<open>Initialize\<close> assigns once and nothing changes afterwards.\<close>

definition quantile :: int where
  "quantile = 10"

definition period :: int where
  "period = 12 * 21"

definition rebalance_period :: int where
  "rebalance_period = 3"

definition leverage :: int where
  "leverage = 3"

definition free_margin :: int where
  "free_margin = 1"

definition managed_symbols_size :: int where
  "managed_symbols_size = 30"

section \<open>LoadEarningsData\<close>

text \<open>
  The inner loop over \<^verbatim>\<open>obj['stocks']\<close>: each ticker is appended to
  \<^verbatim>\<open>self.earnings[date]\<close> and added to \<^verbatim>\<open>earnings_set\<close>. The result carries the
  exception, if one was raised, and the two containers as they are at that moment.
\<close>

fun load_tickers ::
  "date \<Rightarrow> string option list \<Rightarrow> (date \<rightharpoonup> string list) \<times> string set
    \<Rightarrow> error option \<times> (date \<rightharpoonup> string list) \<times> string set" where
  "load_tickers d [] acc = (None, acc)"
| "load_tickers d (stock_data # rest) (e, s) =
     (case stock_data of
        None \<Rightarrow> (Some KeyError, (e, s))
      | Some ticker \<Rightarrow>
          (case e d of
             None \<Rightarrow> (Some KeyError, (e, s))
           | Some ts \<Rightarrow> load_tickers d rest (e(d \<mapsto> ts @ [ticker]), insert ticker s)))"

text \<open>
  The outer loop over the feed. \<^verbatim>\<open>date - BDay(5)\<close> is the offset by \<open>-5\<close> business
  days.
\<close>

fun load_objs ::
  "lib \<Rightarrow> earnings_obj list \<Rightarrow> (date \<rightharpoonup> string list) \<times> date list \<times> string set
    \<Rightarrow> error option \<times> (date \<rightharpoonup> string list) \<times> date list \<times> string set" where
  "load_objs L [] acc = (None, acc)"
| "load_objs L (obj # rest) (e, days, s) =
     (case date_str obj of
        None \<Rightarrow> (Some KeyError, (e, days, s))
      | Some str \<Rightarrow>
          (case strptime L str of
             None \<Rightarrow> (Some ValueError, (e, days, s))
           | Some d \<Rightarrow>
               (let e1 = e(d \<mapsto> []); days1 = days @ [BDay L d (- 5)] in
                (case stocks obj of
                   None \<Rightarrow> (Some KeyError, (e1, days1, s))
                 | Some sts \<Rightarrow>
                     (case load_tickers d sts (e1, s) of
                        (Some err, (e2, s2)) \<Rightarrow> (Some err, (e2, days1, s2))
                      | (None, (e2, s2)) \<Rightarrow> load_objs L rest (e2, days1, s2))))))"

text \<open>
  \<^verbatim>\<open>self.earnings\<close> is rebound to a new dictionary first and filled in place, so an
  exception leaves it as far as the loop got. \<^verbatim>\<open>self.earnings_universe\<close> and the
  schedule are assigned after the loop, so an exception leaves them alone. The argument
  \<open>feed\<close> is the downloaded file after \<^verbatim>\<open>json.loads\<close>.
\<close>

definition LoadEarningsData :: "lib \<Rightarrow> earnings_obj list \<Rightarrow> algo \<Rightarrow> error option \<times> algo" where
  "LoadEarningsData L feed self =
     (case load_objs L feed (Map.empty, [], {}) of
        (Some err, (e, days, s)) \<Rightarrow> (Some err, self\<lparr>earnings := e\<rparr>)
      | (None, (e, days, s)) \<Rightarrow>
          (None, self\<lparr>earnings := e, earnings_universe := s,
                      scheduled := scheduled self @ days\<rparr>))"

text \<open>What one feed object says, read without the loop: its date and its tickers.\<close>

definition obj_date :: "lib \<Rightarrow> earnings_obj \<Rightarrow> date option" where
  "obj_date L obj = (case date_str obj of None \<Rightarrow> None | Some str \<Rightarrow> strptime L str)"

fun tickers_of :: "string option list \<Rightarrow> string list" where
  "tickers_of [] = []"
| "tickers_of (None # rest) = tickers_of rest"
| "tickers_of (Some ticker # rest) = ticker # tickers_of rest"

definition obj_tickers :: "earnings_obj \<Rightarrow> string list" where
  "obj_tickers obj = (case stocks obj of None \<Rightarrow> [] | Some sts \<Rightarrow> tickers_of sts)"

text \<open>
  A record is malformed when its date is missing or does not parse, its stock list is
  missing, or one of its stocks has no ticker.
\<close>

definition malformed :: "lib \<Rightarrow> earnings_obj \<Rightarrow> bool" where
  "malformed L obj =
     (obj_date L obj = None \<or> stocks obj = None \<or> None \<in> set (case stocks obj of None \<Rightarrow> [] | Some sts \<Rightarrow> sts))"

section \<open>The rolling tracker\<close>

text \<open>
  Modelled from the spec: the methods of \<^verbatim>\<open>data_tools.SymbolData\<close>, which is not among
  the sources. Section 4.1 of the spec: \<open>update\<close> appends the price and evicts the oldest
  one beyond capacity; \<open>is_ready\<close> holds when the window is full; \<open>performance\<close> fails
  with NotReadyError before that and with DivisionByZeroError on a zero first price, and
  is \<open>(last - first) / first\<close> otherwise. The spec says nothing of a full window of
  capacity zero; reading its first price is an IndexError here.
\<close>

definition new_SymbolData :: "int \<Rightarrow> SymbolData" where
  "new_SymbolData n = \<lparr>window = [], capacity = nat n\<rparr>"

definition update :: "rat \<Rightarrow> SymbolData \<Rightarrow> SymbolData" where
  "update price t =
     (let w = window t @ [price] in t\<lparr>window := (if capacity t < length w then tl w else w)\<rparr>)"

definition is_ready :: "SymbolData \<Rightarrow> bool" where
  "is_ready t = (length (window t) = capacity t)"

definition performance :: "SymbolData \<Rightarrow> error + rat" where
  "performance t =
     (if \<not> is_ready t then Inl NotReadyError
      else (case window t of
              [] \<Rightarrow> Inl IndexError
            | first # _ \<Rightarrow>
                if first = 0 then Inl DivisionByZeroError
                else Inr ((last (window t) - first) / first)))"

section \<open>CoarseSelectionFunction\<close>

text \<open>The daily update of prices: only symbols already in \<^verbatim>\<open>self.data\<close> are updated.\<close>

fun update_prices :: "coarse_stock list \<Rightarrow> (Symbol \<rightharpoonup> SymbolData) \<Rightarrow> (Symbol \<rightharpoonup> SymbolData)" where
  "update_prices [] dt = dt"
| "update_prices (stock # rest) dt =
     (case dt (stock_Symbol stock) of
        None \<Rightarrow> update_prices rest dt
      | Some t \<Rightarrow> update_prices rest (dt(stock_Symbol stock \<mapsto> update (AdjustedPrice stock) t)))"

definition select_coarse :: "string set \<Rightarrow> coarse_stock list \<Rightarrow> Symbol list" where
  "select_coarse eligible coarse =
     map stock_Symbol
       (filter (\<lambda>x. HasFundamentalData x \<and> Market x = ''usa'' \<and> stock_Price x > 5
                  \<and> Value (stock_Symbol x) \<in> eligible) coarse)"

text \<open>
  Warm-up: a symbol without a tracker gets a new one, filled from the history when the
  history is not empty.
\<close>

fun warm_up ::
  "(Symbol \<Rightarrow> int \<Rightarrow> rat list) \<Rightarrow> Symbol list \<Rightarrow> (Symbol \<rightharpoonup> SymbolData) \<Rightarrow> (Symbol \<rightharpoonup> SymbolData)" where
  "warm_up H [] dt = dt"
| "warm_up H (s # rest) dt =
     (case dt s of
        Some t \<Rightarrow> warm_up H rest dt
      | None \<Rightarrow>
          (let closes = H s period in
           if closes = [] then warm_up H rest (dt(s \<mapsto> new_SymbolData period))
           else warm_up H rest (dt(s \<mapsto> fold update closes (new_SymbolData period)))))"

text \<open>
  A Python dictionary keeps its keys in insertion order: assigning to a key that is
  present replaces the value where it stands, a new key goes to the end.
\<close>

fun dict_set :: "'k \<Rightarrow> 'v \<Rightarrow> ('k \<times> 'v) list \<Rightarrow> ('k \<times> 'v) list" where
  "dict_set k v [] = [(k, v)]"
| "dict_set k v ((k', v') # kvs) =
     (if k = k' then (k, v) # kvs else (k', v') # dict_set k v kvs)"

text \<open>
  The dictionary comprehension of line 127: \<^verbatim>\<open>performance()\<close> is called on the tracker
  of a selected symbol when \<^verbatim>\<open>is_ready()\<close> holds for it; an exception of
  \<^verbatim>\<open>performance()\<close> ends the comprehension.
\<close>

fun momentum_of ::
  "(Symbol \<rightharpoonup> SymbolData) \<Rightarrow> Symbol list \<Rightarrow> (Symbol \<times> rat) list \<Rightarrow> error + (Symbol \<times> rat) list" where
  "momentum_of dt [] m = Inr m"
| "momentum_of dt (s # rest) m =
     (case dt s of
        None \<Rightarrow> Inl KeyError
      | Some t \<Rightarrow>
          if is_ready t then
            (case performance t of
               Inl err \<Rightarrow> Inl err
             | Inr p \<Rightarrow> momentum_of dt rest (dict_set s p m))
          else momentum_of dt rest m)"

text \<open>The slice \<^verbatim>\<open>xs[-q:]\<close> of Python, for every integer \<open>q\<close>.\<close>

definition py_last :: "int \<Rightarrow> 'a list \<Rightarrow> 'a list" where
  "py_last q xs =
     (if q = 0 then xs
      else if 0 < q then drop (length xs - nat q) xs
      else drop (nat (- q)) xs)"

text \<open>
  Lines 129 to 138: the top quantile of the momentum dictionary. \<^verbatim>\<open>sorted\<close> is stable,
  as \<open>sort_key\<close> is. \<^verbatim>\<open>int(len(momentum) / self.quantile)\<close> truncates the quotient of two
  non-negative numbers, which is their integer quotient.
\<close>

definition select_top_quantile :: "(Symbol \<times> rat) list \<Rightarrow> algo \<Rightarrow> universe \<times> algo" where
  "select_top_quantile momentum self =
     (if int (length momentum) < quantile then (Unchanged, self\<lparr>selected_symbols := []\<rparr>)
      else
        (let q = int (length momentum) div quantile;
             sorted_by_mom = map fst (sort_key snd momentum);
             sel = py_last q sorted_by_mom
         in (Selected sel, self\<lparr>selected_symbols := sel\<rparr>)))"

definition CoarseSelectionFunction :: "coarse_stock list \<Rightarrow> algo \<Rightarrow> (error + universe) \<times> algo" where
  "CoarseSelectionFunction coarse self =
     (let self1 = self\<lparr>data := update_prices coarse (data self)\<rparr> in
      if \<not> selection_flag self1 then (Inr Unchanged, self1)
      else
        (let self2 = self1\<lparr>selection_flag := False\<rparr>;
             selected = select_coarse (earnings_universe self2) coarse;
             self3 = self2\<lparr>data := warm_up (History self2) selected (data self2)\<rparr>
         in (case momentum_of (data self3) selected [] of
               Inl err \<Rightarrow> (Inl err, self3)
             | Inr momentum \<Rightarrow>
                 (case select_top_quantile momentum self3 of (u, self4) \<Rightarrow> (Inr u, self4)))))"

section \<open>The host's portfolio\<close>

text \<open>
  The host is not part of the repository. Its portfolio is the signed weight held per
  symbol: \<^verbatim>\<open>Invested\<close> is a non-zero holding, \<^verbatim>\<open>IsLong\<close> a positive one. An order is
  logged and taken to fill at the target weight (section 4.4 of the spec: once flipped,
  the broker position is short). Every symbol has an entry in \<^verbatim>\<open>self.Securities\<close> and
  \<^verbatim>\<open>self.Portfolio\<close>: the symbols the source looks up were returned by the universe
  selection, which is what adds them there.
\<close>

definition Invested :: "algo \<Rightarrow> Symbol \<Rightarrow> bool" where
  "Invested self s = (Holdings self s \<noteq> 0)"

definition IsLong :: "algo \<Rightarrow> Symbol \<Rightarrow> bool" where
  "IsLong self s = (0 < Holdings self s)"

definition SetHoldings :: "Symbol \<Rightarrow> rat \<Rightarrow> algo \<Rightarrow> algo" where
  "SetHoldings s w self =
     self\<lparr>Holdings := (Holdings self)(s := w), orders := orders self @ [SetHoldingsOrder s w]\<rparr>"

definition Liquidate :: "Symbol \<Rightarrow> algo \<Rightarrow> algo" where
  "Liquidate s self =
     self\<lparr>Holdings := (Holdings self)(s := 0), orders := orders self @ [LiquidateOrder s]\<rparr>"

section \<open>DaysBefore\<close>

text \<open>
  The loop over \<^verbatim>\<open>self.selected_symbols\<close>; \<open>tickers\<close> is
  \<^verbatim>\<open>self.earnings[earnings_date]\<close>, which the loop does not change.
\<close>

fun DaysBefore_loop :: "string list \<Rightarrow> date \<Rightarrow> date \<Rightarrow> Symbol list \<Rightarrow> algo \<Rightarrow> algo" where
  "DaysBefore_loop tickers to_switch to_liquidate [] self = self"
| "DaysBefore_loop tickers to_switch to_liquidate (s # rest) self =
     (if Value s \<notin> set tickers then DaysBefore_loop tickers to_switch to_liquidate rest self
      else if int (length (managed_symbols self)) < managed_symbols_size \<and> \<not> Invested self s
              \<and> Price self s \<noteq> 0 \<and> IsTradable self s
      then
        DaysBefore_loop tickers to_switch to_liquidate rest
          ((SetHoldings s (of_int (leverage - free_margin) / of_int managed_symbols_size) self)
             \<lparr>managed_symbols := managed_symbols self
                @ [\<lparr>symbol = s, date_to_switch = to_switch, date_to_liquidate = to_liquidate\<rparr>]\<rparr>)
      else DaysBefore_loop tickers to_switch to_liquidate rest self)"

definition DaysBefore :: "lib \<Rightarrow> algo \<Rightarrow> algo" where
  "DaysBefore L self =
     (let earnings_date = BDay L (Time self) (buyDaysBefore self);
          to_liquidate = BDay L earnings_date (sellDaysAfter self);
          to_switch = BDay L earnings_date (switchDaysAfter self)
      in (case earnings self earnings_date of
            None \<Rightarrow> self
          | Some tickers \<Rightarrow>
              DaysBefore_loop tickers to_switch to_liquidate (selected_symbols self) self))"

section \<open>OnData\<close>

text \<open>The first loop: one pass over the managed positions, collecting those to delete.\<close>

fun OnData_loop ::
  "date \<Rightarrow> ManagedSymbol list \<Rightarrow> ManagedSymbol list \<Rightarrow> algo \<Rightarrow> ManagedSymbol list \<times> algo" where
  "OnData_loop curr_date [] to_delete self = (to_delete, self)"
| "OnData_loop curr_date (m # rest) to_delete self =
     (if date_to_switch m \<le> curr_date \<and> curr_date < date_to_liquidate m \<and> IsLong self (symbol m)
      then
        OnData_loop curr_date rest to_delete
          (SetHoldings (symbol m)
             (of_int (- 1 * (leverage - free_margin)) / of_int managed_symbols_size) self)
      else if date_to_liquidate m \<le> curr_date
      then OnData_loop curr_date rest (to_delete @ [m]) (Liquidate (symbol m) self)
      else OnData_loop curr_date rest to_delete self)"

text \<open>
  The second loop removes each collected position with \<^verbatim>\<open>list.remove\<close>, which takes
  out the first equal element and raises ValueError when there is none. Every collected
  position comes from the list and is still in it (\<open>OnData_to_delete_present\<close>
  below), so the exception has no branch here. Positions with equal fields are equal in
  the model, whatever equality \<^verbatim>\<open>data_tools.ManagedSymbol\<close> has: the positions
  collected are all those that are due, and the list that is left holds the others in
  their order either way (\<open>OnData_managed\<close> below).
\<close>

definition OnData :: "algo \<Rightarrow> algo" where
  "OnData self =
     (case OnData_loop (Time self) (managed_symbols self) [] self of
        (to_delete, self1) \<Rightarrow>
          self1\<lparr>managed_symbols := fold remove1 to_delete (managed_symbols self1)\<rparr>)"

section \<open>Selection and Initialize\<close>

definition Selection :: "algo \<Rightarrow> algo" where
  "Selection self =
     (let self1 = (if months_counter self mod rebalance_period = 0
                   then self\<lparr>selection_flag := True\<rparr> else self)
      in self1\<lparr>months_counter := months_counter self1 + 1\<rparr>)"

text \<open>
  \<^verbatim>\<open>Initialize\<close> works on the object the host created. \<open>GetParameter\<close> gives a
  parameter as the integer \<^verbatim>\<open>int(...)\<close> makes of it. The earnings file is loaded
  before the counter and the flag are set, so an exception of the load leaves them unset.
  Logging, the cash and the start date have no part in what follows and are left out.
\<close>

definition Initialize :: "lib \<Rightarrow> earnings_obj list \<Rightarrow> algo \<Rightarrow> error option \<times> algo" where
  "Initialize L feed self =
     (let self1 = self\<lparr>buyDaysBefore := GetParameter self ''buyDaysBefore'',
                       sellDaysAfter := GetParameter self ''sellDaysAfter'',
                       switchDaysAfter := GetParameter self ''switchDaysAfter'',
                       data := Map.empty, selected_symbols := [], managed_symbols := []\<rparr>
      in (case LoadEarningsData L feed self1 of
            (Some err, self2) \<Rightarrow> (Some err, self2)
          | (None, self2) \<Rightarrow> (None, self2\<lparr>months_counter := 0, selection_flag := True\<rparr>)))"

section \<open>Runs of the algorithm\<close>

text \<open>
  What the host does to the algorithm, one event at a time: it moves the clock, changes
  the market state (holdings, prices, tradability), and calls the handlers the source
  registers. An exception ends the run.
\<close>

datatype event =
    Clock date
  | MarketState "Symbol \<Rightarrow> rat" "Symbol \<Rightarrow> rat" "Symbol \<Rightarrow> bool"
  | CallCoarseSelection "coarse_stock list"
  | CallDaysBefore
  | CallOnData
  | CallSelection
  | CallLoadEarningsData "earnings_obj list"

fun step :: "lib \<Rightarrow> event \<Rightarrow> algo \<Rightarrow> error option \<times> algo" where
  "step L (Clock t) self = (None, self\<lparr>Time := t\<rparr>)"
| "step L (MarketState h p tr) self = (None, self\<lparr>Holdings := h, Price := p, IsTradable := tr\<rparr>)"
| "step L (CallCoarseSelection coarse) self =
     (case CoarseSelectionFunction coarse self of
        (Inl err, self1) \<Rightarrow> (Some err, self1)
      | (Inr u, self1) \<Rightarrow> (None, self1))"
| "step L CallDaysBefore self = (None, DaysBefore L self)"
| "step L CallOnData self = (None, OnData self)"
| "step L CallSelection self = (None, Selection self)"
| "step L (CallLoadEarningsData feed) self = LoadEarningsData L feed self"

fun run :: "lib \<Rightarrow> event list \<Rightarrow> algo \<Rightarrow> algo" where
  "run L [] self = self"
| "run L (ev # evs) self =
     (case step L ev self of
        (Some err, self1) \<Rightarrow> self1
      | (None, self1) \<Rightarrow> run L evs self1)"

section \<open>A business-day offset\<close>

text \<open>
  The weekend-skipping offset as pandas' \<^verbatim>\<open>BusinessDay\<close> computes it, on ordinals
  (ordinal 1 is a Monday, weekday 0). It is one function the parameter \<open>BDay\<close> can be.
\<close>

definition weekday :: "date \<Rightarrow> int" where
  "weekday d = (d + 6) mod 7"

definition business_day :: "date \<Rightarrow> int \<Rightarrow> date" where
  "business_day d n =
     (let wday = weekday d;
          weeks = n div 5;
          n1 = (if n \<le> 0 \<and> 4 < wday then n + 1 else n);
          n2 = n1 - 5 * weeks;
          days = (if n2 = 0 \<and> 4 < wday then 4 - wday
                  else if 4 < wday then (7 - wday) + (n2 - 1)
                  else if wday + n2 \<le> 4 then n2
                  else n2 + 2)
      in d + 7 * weeks + days)"

section \<open>Reference functions and sample values\<close>

text \<open>The index a feed describes, one object at a time: a later object replaces the entry of its date.\<close>

definition put_obj :: "lib \<Rightarrow> earnings_obj \<Rightarrow> (date \<rightharpoonup> string list) \<Rightarrow> (date \<rightharpoonup> string list)" where
  "put_obj L obj e = (case obj_date L obj of None \<Rightarrow> e | Some d \<Rightarrow> e(d \<mapsto> obj_tickers obj))"

text \<open>
  Sample inputs: a date parser that knows two Mondays of January 2023 (ordinals 738522
  and 738529), the object the host hands to \<^verbatim>\<open>Initialize\<close>, a feed that names one date
  twice, and a feed whose second object has a date that does not parse.
\<close>

definition example_strptime :: "string \<Rightarrow> date option" where
  "example_strptime str =
     (if str = ''2023-01-02'' then Some 738522
      else if str = ''2023-01-09'' then Some 738529
      else None)"

definition example_lib :: lib where
  "example_lib = \<lparr>strptime = example_strptime, BDay = business_day\<rparr>"

definition example_self :: algo where
  "example_self =
     \<lparr>Time = 738515, LiveMode = True, GetParameter = (\<lambda>name. if name = ''buyDaysBefore'' then 5 else if name = ''sellDaysAfter'' then 8 else 3),
      Holdings = (\<lambda>s. 0), Price = (\<lambda>s. 10), IsTradable = (\<lambda>s. True),
      History = (\<lambda>s n. []), orders = [],
      buyDaysBefore = 0, sellDaysAfter = 0, switchDaysAfter = 0,
      data = Map.empty, selected_symbols = [], managed_symbols = [],
      earnings = Map.empty, earnings_universe = {}, scheduled = [],
      months_counter = 0, selection_flag = False\<rparr>"

definition example_feed :: "earnings_obj list" where
  "example_feed =
     [\<lparr>date_str = Some ''2023-01-02'', stocks = Some [Some ''AAPL'', Some ''MSFT'']\<rparr>,
      \<lparr>date_str = Some ''2023-01-09'', stocks = Some [Some ''IBM'']\<rparr>,
      \<lparr>date_str = Some ''2023-01-02'', stocks = Some [Some ''NVDA'']\<rparr>]"

definition broken_feed :: "earnings_obj list" where
  "broken_feed =
     [\<lparr>date_str = Some ''2023-01-09'', stocks = Some [Some ''MSFT'']\<rparr>,
      \<lparr>date_str = Some ''next week'', stocks = Some [Some ''IBM'']\<rparr>]"

definition loaded_self :: algo where
  "loaded_self = snd (LoadEarningsData example_lib example_feed example_self)"

text \<open>
  The momentum dictionary one universe pass computes when the selection flag is set: the prices are updated, the trackers of the selected symbols warmed up, and the scores of the ready ones collected.
\<close>

definition pass_momentum :: "coarse_stock list \<Rightarrow> algo \<Rightarrow> error + (Symbol \<times> rat) list" where
  "pass_momentum coarse self =
     (let selected = select_coarse (earnings_universe self) coarse
      in momentum_of (warm_up (History self) selected (update_prices coarse (data self))) selected [])"

text \<open>
  Sample inputs: ten scores with the highest one twice, a history of 252 closes from 100 to 110, a coarse universe of one stock, and the object after a first load with the selection flag set, with and without a price history.
\<close>

definition example_scores :: "(Symbol \<times> rat) list" where
  "example_scores =
     [(Symbol ''A'', 1), (Symbol ''B'', 2), (Symbol ''C'', 10), (Symbol ''D'', 4),
      (Symbol ''E'', 5), (Symbol ''F'', 6), (Symbol ''G'', 7), (Symbol ''H'', 8),
      (Symbol ''I'', 9), (Symbol ''J'', 10)]"

definition example_closes :: "rat list" where
  "example_closes = 100 # replicate 250 100 @ [110]"

definition example_coarse :: "coarse_stock list" where
  "example_coarse =
     [\<lparr>stock_Symbol = Symbol ''IBM'', AdjustedPrice = 110, HasFundamentalData = True,
       Market = ''usa'', stock_Price = 110\<rparr>]"

definition warm_self :: algo where
  "warm_self = loaded_self\<lparr>selection_flag := True, History := (\<lambda>s n. example_closes)\<rparr>"

definition cold_self :: algo where
  "cold_self = loaded_self\<lparr>selection_flag := True\<rparr>"

text \<open>
  The sizing formula of a managed slot, and what an order says: its symbol and its target weight (a liquidation has none).
\<close>

definition entry_weight :: rat where
  "entry_weight = of_int (leverage - free_margin) / of_int managed_symbols_size"

fun order_symbol :: "order \<Rightarrow> Symbol" where
  "order_symbol (SetHoldingsOrder s w) = s"
| "order_symbol (LiquidateOrder s) = s"

fun order_weight :: "order \<Rightarrow> rat option" where
  "order_weight (SetHoldingsOrder s w) = Some w"
| "order_weight (LiquidateOrder s) = None"

text \<open>
  The constructor call \<^verbatim>\<open>ManagedSymbol(symbol, date_to_switch, date_to_liquidate)\<close> with the two dates fixed.
\<close>

definition new_ManagedSymbol :: "date \<Rightarrow> date \<Rightarrow> Symbol \<Rightarrow> ManagedSymbol" where
  "new_ManagedSymbol to_switch to_liquidate s =
     \<lparr>symbol = s, date_to_switch = to_switch, date_to_liquidate = to_liquidate\<rparr>"

text \<open>
  The orders and the managed positions of one symbol, and the invariant of the managed set: no position switches after it liquidates.
\<close>

definition orders_for :: "Symbol \<Rightarrow> algo \<Rightarrow> order list" where
  "orders_for s self = filter (\<lambda>ord. order_symbol ord = s) (orders self)"

definition positions_for :: "Symbol \<Rightarrow> algo \<Rightarrow> ManagedSymbol list" where
  "positions_for s self = filter (\<lambda>m. symbol m = s) (managed_symbols self)"

definition ordered_dates :: "algo \<Rightarrow> bool" where
  "ordered_dates self = list_all (\<lambda>m. date_to_switch m \<le> date_to_liquidate m) (managed_symbols self)"

text \<open>
  Sample states: the object after \<^verbatim>\<open>Initialize\<close> on Monday 2022-12-26 with two selected symbols; the position \<^verbatim>\<open>DaysBefore\<close> then opens for the announcement of 2023-01-02 (switch on 2023-01-05, liquidation on 2023-01-12); the object with that position; an object whose managed set is full; and one that already holds the symbol.
\<close>

definition ready_self :: algo where
  "ready_self = (snd (Initialize example_lib example_feed example_self))
     \<lparr>selected_symbols := [Symbol ''NVDA'', Symbol ''IBM'']\<rparr>"

definition example_position :: ManagedSymbol where
  "example_position = \<lparr>symbol = Symbol ''NVDA'', date_to_switch = 738525, date_to_liquidate = 738532\<rparr>"

definition pos_self :: algo where
  "pos_self = DaysBefore example_lib ready_self"

definition full_self :: algo where
  "full_self = ready_self\<lparr>managed_symbols := replicate 30 example_position\<rparr>"

definition held_self :: algo where
  "held_self = ready_self\<lparr>Holdings := (\<lambda>s. if s = Symbol ''NVDA'' then 1 / 15 else 0)\<rparr>"

text \<open>
  The algorithm object at the moment the first loop of \<^verbatim>\<open>OnData\<close> has gone through the
  positions \<open>seen\<close>, a prefix of the managed list: what the host reports when the next
  position is examined, and the orders placed so far.
\<close>

definition reached :: "ManagedSymbol list \<Rightarrow> algo \<Rightarrow> algo" where
  "reached seen self = snd (OnData_loop (Time self) seen [] self)"




section \<open>Properties of LoadEarningsData\<close>

lemma load_tickers_success:
  "e d = Some acc \<Longrightarrow> None \<notin> set sts \<Longrightarrow>
   load_tickers d sts (e, s) =
     (None, (e(d \<mapsto> acc @ tickers_of sts), s \<union> set (tickers_of sts)))"
proof (induction sts arbitrary: e s acc)
  case Nil
  then show ?case by (simp add: fun_upd_idem)
next
  case (Cons x sts)
  then obtain t where x: "x = Some t" by (cases x) auto
  from Cons.prems have no: "None \<notin> set sts" by simp
  have "load_tickers d sts (e(d \<mapsto> acc @ [t]), insert t s) =
      (None, ((e(d \<mapsto> acc @ [t]))(d \<mapsto> (acc @ [t]) @ tickers_of sts),
              insert t s \<union> set (tickers_of sts)))"
    by (rule Cons.IH) (simp_all add: no)
  then show ?case using Cons.prems(1) by (simp add: x) (auto simp: fun_upd_def)
qed

lemma load_tickers_fail:
  "e d = Some acc \<Longrightarrow> None \<in> set sts \<Longrightarrow> fst (load_tickers d sts (e, s)) = Some KeyError"
proof (induction sts arbitrary: e s acc)
  case Nil
  then show ?case by simp
next
  case (Cons x sts)
  show ?case
  proof (cases x)
    case None
    then show ?thesis by simp
  next
    case (Some t)
    with Cons.prems have "None \<in> set sts" by simp
    then have "fst (load_tickers d sts (e(d \<mapsto> acc @ [t]), insert t s)) = Some KeyError"
      by (intro Cons.IH[where acc = "acc @ [t]"]) simp_all
    then show ?thesis using Cons.prems(1) by (simp add: Some)
  qed
qed

lemma load_objs_success:
  "\<forall>obj\<in>set feed. \<not> malformed L obj \<Longrightarrow>
   load_objs L feed (e, days, s) =
     (None, (fold (put_obj L) feed e,
             days @ map (\<lambda>obj. BDay L (the (obj_date L obj)) (- 5)) feed,
             s \<union> (\<Union>obj\<in>set feed. set (obj_tickers obj))))"
proof (induction feed arbitrary: e days s)
  case Nil
  then show ?case by simp
next
  case (Cons obj feed)
  from Cons.prems have wf: "\<not> malformed L obj" and rest: "\<forall>obj\<in>set feed. \<not> malformed L obj"
    by simp_all
  from wf obtain str d sts where o: "date_str obj = Some str" "strptime L str = Some d"
      "stocks obj = Some sts" "None \<notin> set sts"
    by (auto simp: malformed_def obj_date_def split: option.splits)
  have t: "load_tickers d sts (e(d \<mapsto> []), s) =
      (None, ((e(d \<mapsto> []))(d \<mapsto> [] @ tickers_of sts), s \<union> set (tickers_of sts)))"
    by (rule load_tickers_success) (simp_all add: o)
  have od: "obj_date L obj = Some d" by (simp add: obj_date_def o)
  have ot: "obj_tickers obj = tickers_of sts" by (simp add: obj_tickers_def o)
  show ?case
    using Cons.IH[OF rest] by (simp add: o t od ot put_obj_def Un_assoc)
qed

lemma load_objs_fail:
  "\<exists>obj\<in>set feed. malformed L obj \<Longrightarrow>
   fst (load_objs L feed (e, days, s)) = Some KeyError \<or> fst (load_objs L feed (e, days, s)) = Some ValueError"
proof (induction feed arbitrary: e days s)
  case Nil
  then show ?case by simp
next
  case (Cons obj feed)
  show ?case
  proof (cases "malformed L obj")
    case True
    show ?thesis
    proof (cases "date_str obj")
      case None
      then show ?thesis by simp
    next
      case (Some str)
      note str = this
      show ?thesis
      proof (cases "strptime L str")
        case None
        then show ?thesis by (simp add: str)
      next
        case (Some d)
        note d = this
        show ?thesis
        proof (cases "stocks obj")
          case None
          then show ?thesis by (simp add: str d)
        next
          case (Some sts)
          with True str d have "None \<in> set sts" by (simp add: malformed_def obj_date_def)
          then have "fst (load_tickers d sts (e(d \<mapsto> []), s)) = Some KeyError"
            by (intro load_tickers_fail[where acc = "[]"]) simp_all
          then obtain e2 s2 where "load_tickers d sts (e(d \<mapsto> []), s) = (Some KeyError, e2, s2)"
            by (cases "load_tickers d sts (e(d \<mapsto> []), s)") auto
          then show ?thesis by (simp add: str d Some)
        qed
      qed
    qed
  next
    case False
    with Cons.prems have ex: "\<exists>obj\<in>set feed. malformed L obj" by simp
    from False obtain str d sts where o: "date_str obj = Some str" "strptime L str = Some d"
      "stocks obj = Some sts" "None \<notin> set sts"
      by (auto simp: malformed_def obj_date_def split: option.splits)
    have t: "load_tickers d sts (e(d \<mapsto> []), s) =
      (None, ((e(d \<mapsto> []))(d \<mapsto> [] @ tickers_of sts), s \<union> set (tickers_of sts)))"
      by (rule load_tickers_success) (simp_all add: o)
    show ?thesis using Cons.IH[OF ex] by (simp add: o t)
  qed
qed

lemma fold_put_obj_other:
  "\<forall>obj\<in>set feed. obj_date L obj \<noteq> Some d \<Longrightarrow> fold (put_obj L) feed e d = e d"
  by (induction feed arbitrary: e) (auto simp: put_obj_def split: option.splits)

lemma loaded_self_earnings:
  "earnings loaded_self = [738529 \<mapsto> [''IBM''], 738522 \<mapsto> [''NVDA'']]"
  by (simp add: loaded_self_def LoadEarningsData_def example_feed_def example_lib_def
      example_strptime_def example_self_def)

lemma loaded_self_universe:
  "earnings_universe loaded_self = {''AAPL'', ''MSFT'', ''IBM'', ''NVDA''}"
  by (auto simp add: loaded_self_def LoadEarningsData_def example_feed_def example_lib_def
      example_strptime_def example_self_def)

lemma broken_load:
  "load_objs example_lib broken_feed (Map.empty, [], {}) =
     (Some ValueError, [738529 \<mapsto> [''MSFT'']], [business_day 738529 (- 5)], {''MSFT''})"
  by (simp add: broken_feed_def example_lib_def example_strptime_def)

text \<open>
  Claim C1, as stated, fails: after a first load of \<open>example_feed\<close>, loading
  \<open>broken_feed\<close> raises ValueError at its second object, and the entry of 2023-01-02
  is gone while the entry of 2023-01-09 is the one of the broken feed.
\<close>

theorem failed_load_changes_index:
  "fst (LoadEarningsData example_lib broken_feed loaded_self) = Some ValueError
   \<and> earnings loaded_self 738522 = Some [''NVDA'']
   \<and> earnings (snd (LoadEarningsData example_lib broken_feed loaded_self)) 738522 = None
   \<and> earnings loaded_self 738529 = Some [''IBM'']
   \<and> earnings (snd (LoadEarningsData example_lib broken_feed loaded_self)) 738529 = Some [''MSFT'']"
  by (simp add: LoadEarningsData_def broken_load loaded_self_earnings)

text \<open>
  Claim C1, amended: when the feed holds a malformed object the load raises (KeyError or
  ValueError), and the eligible universe and the schedule are what they were before. The
  date index is not kept: it is what the load built before the exception, whatever the
  object held before.
\<close>

theorem failed_load_keeps_universe:
  assumes "\<exists>obj\<in>set feed. malformed L obj"
  shows "(fst (LoadEarningsData L feed self) = Some KeyError
            \<or> fst (LoadEarningsData L feed self) = Some ValueError)
       \<and> earnings_universe (snd (LoadEarningsData L feed self)) = earnings_universe self
       \<and> scheduled (snd (LoadEarningsData L feed self)) = scheduled self
       \<and> earnings (snd (LoadEarningsData L feed self)) = earnings (snd (LoadEarningsData L feed other))"
proof -
  obtain r e days s where l: "load_objs L feed (Map.empty, [], {}) = (r, e, days, s)"
    by (cases "load_objs L feed (Map.empty, [], {})") auto
  from load_objs_fail[OF assms, of Map.empty "[]" "{}"] l
  have r: "r = Some KeyError \<or> r = Some ValueError" by simp
  then show ?thesis by (auto simp: LoadEarningsData_def l)
qed

theorem failed_load_keeps_universe_witness:
  "fst (LoadEarningsData example_lib broken_feed loaded_self) = Some ValueError
   \<and> earnings_universe (snd (LoadEarningsData example_lib broken_feed loaded_self))
       = {''AAPL'', ''MSFT'', ''IBM'', ''NVDA''}
   \<and> earnings (snd (LoadEarningsData example_lib broken_feed loaded_self))
       = earnings (snd (LoadEarningsData example_lib broken_feed example_self))"
proof -
  have m: "\<exists>obj\<in>set broken_feed. malformed example_lib obj"
    by (simp add: broken_feed_def malformed_def obj_date_def example_lib_def example_strptime_def)
  have e: "fst (LoadEarningsData example_lib broken_feed loaded_self) = Some ValueError"
    by (simp add: LoadEarningsData_def broken_load)
  show ?thesis
    using failed_load_keeps_universe[OF m, of loaded_self example_self] e
    by (simp add: loaded_self_universe)
qed

text \<open>
  Claim C10: when a well-formed feed names a date twice, the index of that date holds
  the tickers of the last object with that date only, and the eligible universe is the
  union of the tickers of all objects, those of the overwritten object included.
\<close>

theorem duplicate_date_last_record_wins:
  assumes "feed = pre @ r1 # mid @ r2 # post"
    and "obj_date L r1 = Some d" and "obj_date L r2 = Some d"
    and "\<forall>obj\<in>set post. obj_date L obj \<noteq> Some d"
    and "\<forall>obj\<in>set feed. \<not> malformed L obj"
  shows "fst (LoadEarningsData L feed self) = None
       \<and> earnings (snd (LoadEarningsData L feed self)) d = Some (obj_tickers r2)
       \<and> earnings_universe (snd (LoadEarningsData L feed self)) = (\<Union>obj\<in>set feed. set (obj_tickers obj))
       \<and> set (obj_tickers r1) \<subseteq> earnings_universe (snd (LoadEarningsData L feed self))"
proof -
  have l: "load_objs L feed (Map.empty, [], {}) =
     (None, (fold (put_obj L) feed Map.empty,
             [] @ map (\<lambda>obj. BDay L (the (obj_date L obj)) (- 5)) feed,
             {} \<union> (\<Union>obj\<in>set feed. set (obj_tickers obj))))"
    using assms(5) by (rule load_objs_success)
  have "fold (put_obj L) feed Map.empty d
      = fold (put_obj L) post (put_obj L r2 (fold (put_obj L) (pre @ r1 # mid) Map.empty)) d"
    by (simp add: assms(1))
  also have "\<dots> = put_obj L r2 (fold (put_obj L) (pre @ r1 # mid) Map.empty) d"
    using assms(4) by (rule fold_put_obj_other)
  also have "\<dots> = Some (obj_tickers r2)"
    by (simp add: put_obj_def assms(3))
  finally have d: "fold (put_obj L) feed Map.empty d = Some (obj_tickers r2)" .
  have "r1 \<in> set feed" by (simp add: assms(1))
  then have sub: "set (obj_tickers r1) \<subseteq> (\<Union>obj\<in>set feed. set (obj_tickers obj))" by blast
  show ?thesis using d sub by (simp add: LoadEarningsData_def l)
qed

theorem duplicate_date_last_record_wins_witness:
  "earnings (snd (LoadEarningsData example_lib example_feed example_self)) 738522 = Some [''NVDA'']
   \<and> ''AAPL'' \<in> earnings_universe (snd (LoadEarningsData example_lib example_feed example_self))
   \<and> ''MSFT'' \<in> earnings_universe (snd (LoadEarningsData example_lib example_feed example_self))"
proof -
  let ?r1 = "\<lparr>date_str = Some ''2023-01-02'', stocks = Some [Some ''AAPL'', Some ''MSFT'']\<rparr>"
  let ?r9 = "\<lparr>date_str = Some ''2023-01-09'', stocks = Some [Some ''IBM'']\<rparr>"
  let ?r2 = "\<lparr>date_str = Some ''2023-01-02'', stocks = Some [Some ''NVDA'']\<rparr>"
  have a1: "example_feed = [] @ ?r1 # [?r9] @ ?r2 # []" by (simp add: example_feed_def)
  have a2: "obj_date example_lib ?r1 = Some 738522"
    by (simp add: obj_date_def example_lib_def example_strptime_def)
  have a3: "obj_date example_lib ?r2 = Some 738522"
    by (simp add: obj_date_def example_lib_def example_strptime_def)
  have a4: "\<forall>obj\<in>set []. obj_date example_lib obj \<noteq> Some 738522" by simp
  have a5: "\<forall>obj\<in>set example_feed. \<not> malformed example_lib obj"
    by (simp add: example_feed_def malformed_def obj_date_def example_lib_def example_strptime_def)
  note w = duplicate_date_last_record_wins[OF a1 a2 a3 a4 a5, of example_self]
  from w have "earnings (snd (LoadEarningsData example_lib example_feed example_self)) 738522
      = Some (obj_tickers ?r2)"
    by blast
  then have e: "earnings (snd (LoadEarningsData example_lib example_feed example_self)) 738522
      = Some [''NVDA'']"
    by (simp add: obj_tickers_def)
  from w have "set (obj_tickers ?r1)
      \<subseteq> earnings_universe (snd (LoadEarningsData example_lib example_feed example_self))"
    by blast
  then have u: "{''AAPL'', ''MSFT''}
      \<subseteq> earnings_universe (snd (LoadEarningsData example_lib example_feed example_self))"
    by (simp add: obj_tickers_def)
  show ?thesis using e u by simp
qed

section \<open>Properties of CoarseSelectionFunction\<close>

lemma CoarseSelectionFunction_pass:
  "selection_flag self \<Longrightarrow> pass_momentum coarse self = Inr momentum \<Longrightarrow>
   fst (CoarseSelectionFunction coarse self) = Inr (fst (select_top_quantile momentum self))
   \<and> selected_symbols (snd (CoarseSelectionFunction coarse self))
       = selected_symbols (snd (select_top_quantile momentum self))"
  by (simp add: CoarseSelectionFunction_def pass_momentum_def Let_def select_top_quantile_def
      split: prod.splits)

lemma sorted_take_le_drop:
  "sorted (map f xs) \<Longrightarrow> x \<in> set (take k xs) \<Longrightarrow> y \<in> set (drop k xs) \<Longrightarrow> f x \<le> f y"
proof -
  assume s: "sorted (map f xs)" and x: "x \<in> set (take k xs)" and y: "y \<in> set (drop k xs)"
  have "sorted (map f (take k xs) @ map f (drop k xs))"
    using s by (simp flip: map_append)
  then show ?thesis using x y by (auto simp: sorted_append)
qed

text \<open>
  Claim C4: with at least \<open>quantile\<close> scores, the bucket size is the integer quotient of their number by ten and is at least one; the scores are sorted ascending by a stable sort (a permutation that keeps the insertion order among equal scores); the selection is made of exactly the last bucket-size instruments of that order, and no instrument left out has a higher score than a selected one. The selection is a function of the dictionary.
\<close>

theorem top_quantile_selected:
  assumes "quantile \<le> int (length momentum)"
  shows "select_top_quantile momentum self =
           (Selected (map fst (drop (length momentum - length momentum div 10) (sort_key snd momentum))),
            self\<lparr>selected_symbols :=
                   map fst (drop (length momentum - length momentum div 10) (sort_key snd momentum))\<rparr>)
       \<and> length (selected_symbols (snd (select_top_quantile momentum self))) = length momentum div 10
       \<and> 1 \<le> length momentum div 10
       \<and> int (length momentum div 10) = int (length momentum) div quantile
       \<and> sorted (map snd (sort_key snd momentum))
       \<and> mset (sort_key snd momentum) = mset momentum
       \<and> (\<forall>k. filter (\<lambda>x. snd x = k) (sort_key snd momentum) = filter (\<lambda>x. snd x = k) momentum)
       \<and> (\<forall>x\<in>set (take (length momentum - length momentum div 10) (sort_key snd momentum)).
            \<forall>y\<in>set (drop (length momentum - length momentum div 10) (sort_key snd momentum)).
              snd x \<le> snd y)"
proof -
  let ?n = "length momentum"
  let ?srt = "sort_key snd momentum"
  from assms have n: "10 \<le> ?n" by (simp add: quantile_def)
  then have b: "1 \<le> ?n div 10" by simp
  have q: "int ?n div quantile = int (?n div 10)" by (simp add: quantile_def zdiv_int)
  have pl: "py_last (int (?n div 10)) (map fst ?srt) = map fst (drop (?n - ?n div 10) ?srt)"
    using b by (simp add: py_last_def drop_map)
  have sel: "select_top_quantile momentum self =
           (Selected (map fst (drop (?n - ?n div 10) ?srt)),
            self\<lparr>selected_symbols := map fst (drop (?n - ?n div 10) ?srt)\<rparr>)"
    using assms by (simp add: select_top_quantile_def Let_def q pl)
  have len: "length (selected_symbols (snd (select_top_quantile momentum self))) = ?n div 10"
    by (simp add: sel)
  have srt: "sorted (map snd ?srt)" by (rule sorted_sort_key)
  have ms: "mset ?srt = mset momentum" by simp
  have st: "\<forall>k. filter (\<lambda>x. snd x = k) ?srt = filter (\<lambda>x. snd x = k) momentum"
    by (simp add: sort_key_stable)
  have top: "\<forall>x\<in>set (take (?n - ?n div 10) ?srt). \<forall>y\<in>set (drop (?n - ?n div 10) ?srt). snd x \<le> snd y"
    using sorted_take_le_drop[OF srt] by blast
  show ?thesis using sel len b q[symmetric] srt ms st top by blast
qed

text \<open>
  Claim C6: with fewer than \<open>quantile\<close> scores the selection is empty and the universe is left unchanged; a universe pass whose momentum dictionary is that small returns without an exception.
\<close>

theorem too_few_scores_select_nothing:
  assumes "int (length momentum) < quantile"
  shows "select_top_quantile momentum self = (Unchanged, self\<lparr>selected_symbols := []\<rparr>)
       \<and> (selection_flag self \<and> pass_momentum coarse self = Inr momentum \<longrightarrow>
            fst (CoarseSelectionFunction coarse self) = Inr Unchanged
            \<and> selected_symbols (snd (CoarseSelectionFunction coarse self)) = [])"
proof -
  have s: "select_top_quantile momentum self = (Unchanged, self\<lparr>selected_symbols := []\<rparr>)"
    using assms by (simp add: select_top_quantile_def)
  show ?thesis using s CoarseSelectionFunction_pass[of self coarse momentum] by simp
qed

lemma performance_NotReady: "(performance t = Inl NotReadyError) = (\<not> is_ready t)"
  by (simp add: performance_def split: list.splits)

lemma momentum_of_NotReady: "momentum_of dt selected m \<noteq> Inl NotReadyError"
proof (induction selected arbitrary: m)
  case Nil
  then show ?case by simp
next
  case (Cons s rest)
  show ?case
  proof (cases "dt s")
    case None
    then show ?thesis by simp
  next
    case (Some t)
    show ?thesis
    proof (cases "is_ready t")
      case True
      then have "performance t \<noteq> Inl NotReadyError" by (simp add: performance_NotReady)
      then show ?thesis using Cons.IH True Some by (auto split: sum.splits)
    next
      case False
      then show ?thesis using Cons.IH Some by simp
    qed
  qed
qed

text \<open>
  Claim C8: a universe pass never ends with NotReadyError. The comprehension calls \<open>performance\<close> only where \<open>is_ready\<close> holds, and \<open>performance\<close> raises NotReadyError exactly where it does not.
\<close>

theorem NotReadyError_unreachable:
  "fst (CoarseSelectionFunction coarse self) \<noteq> Inl NotReadyError
   \<and> momentum_of dt selected m \<noteq> Inl NotReadyError
   \<and> (performance t = Inl NotReadyError) = (\<not> is_ready t)"
proof -
  have "fst (CoarseSelectionFunction coarse self) \<noteq> Inl NotReadyError"
    using momentum_of_NotReady
    by (auto simp: CoarseSelectionFunction_def Let_def split: sum.splits prod.splits)
  then show ?thesis by (simp add: momentum_of_NotReady performance_NotReady)
qed

lemma fold_update_window:
  "length (window t) + length closes \<le> capacity t \<Longrightarrow>
   fold update closes t = t\<lparr>window := window t @ closes\<rparr>"
proof (induction closes arbitrary: t)
  case Nil
  then show ?case by simp
next
  case (Cons c closes)
  have u: "update c t = t\<lparr>window := window t @ [c]\<rparr>"
    using Cons.prems by (simp add: update_def Let_def)
  have "fold update closes (update c t) = (update c t)\<lparr>window := window (update c t) @ closes\<rparr>"
    by (rule Cons.IH) (use Cons.prems in \<open>simp add: u\<close>)
  then show ?case by (simp add: u)
qed

lemma performance_full_window:
  "a \<noteq> 0 \<Longrightarrow> performance \<lparr>window = a # xs @ [b], capacity = Suc (Suc (length xs))\<rparr> = Inr ((b - a) / a)"
  by (simp add: performance_def is_ready_def)

lemma warm_tracker:
  "fold update example_closes (new_SymbolData period)
     = \<lparr>window = 100 # replicate 250 100 @ [110], capacity = Suc (Suc (length (replicate 250 (100::rat))))\<rparr>"
proof -
  have "fold update example_closes (new_SymbolData period)
      = (new_SymbolData period)\<lparr>window := window (new_SymbolData period) @ example_closes\<rparr>"
    by (rule fold_update_window) (simp add: new_SymbolData_def period_def example_closes_def)
  then show ?thesis by (simp add: new_SymbolData_def period_def example_closes_def)
qed

lemma warm_tracker_ready: "is_ready (fold update example_closes (new_SymbolData period))"
  by (simp add: warm_tracker is_ready_def)

lemma warm_tracker_performance:
  "performance (fold update example_closes (new_SymbolData period)) = Inr (1 / 10)"
  unfolding warm_tracker by (subst performance_full_window) simp_all

lemma example_closes_nonempty: "example_closes \<noteq> []"
  by (simp add: example_closes_def)

lemma select_coarse_example:
  "select_coarse (earnings_universe loaded_self) example_coarse = [Symbol ''IBM'']"
  by (simp add: select_coarse_def example_coarse_def loaded_self_universe)

lemma loaded_self_data: "data loaded_self = Map.empty"
  by (simp add: loaded_self_def LoadEarningsData_def example_self_def split: prod.splits option.splits)

lemma warm_pass: "pass_momentum example_coarse warm_self = Inr [(Symbol ''IBM'', 1 / 10)]"
proof -
  have eu: "earnings_universe warm_self = earnings_universe loaded_self"
    by (simp add: warm_self_def)
  have h: "History warm_self = (\<lambda>s n. example_closes)"
    by (simp add: warm_self_def)
  have u: "update_prices example_coarse (data warm_self) = Map.empty"
    by (simp add: warm_self_def loaded_self_data example_coarse_def)
  have w: "warm_up (History warm_self) [Symbol ''IBM''] Map.empty
      = [Symbol ''IBM'' \<mapsto> fold update example_closes (new_SymbolData period)]"
    by (simp add: h example_closes_nonempty Let_def)
  have m: "momentum_of [Symbol ''IBM'' \<mapsto> fold update example_closes (new_SymbolData period)]
             [Symbol ''IBM''] [] = Inr [(Symbol ''IBM'', 1 / 10)]"
    by (simp add: warm_tracker_ready warm_tracker_performance)
  show ?thesis
    unfolding pass_momentum_def Let_def eu select_coarse_example u w by (rule m)
qed

theorem top_quantile_selected_witness:
  "select_top_quantile example_scores example_self =
     (Selected [Symbol ''J''], example_self\<lparr>selected_symbols := [Symbol ''J'']\<rparr>)"
proof -
  have h: "quantile \<le> int (length example_scores)"
    by (simp add: quantile_def example_scores_def)
  have "select_top_quantile example_scores example_self =
          (Selected (map fst (drop (length example_scores - length example_scores div 10)
                       (sort_key snd example_scores))),
           example_self\<lparr>selected_symbols :=
              map fst (drop (length example_scores - length example_scores div 10)
                       (sort_key snd example_scores))\<rparr>)"
    using top_quantile_selected[OF h, of example_self] by blast
  then show ?thesis by (simp add: example_scores_def)
qed

theorem too_few_scores_select_nothing_witness:
  "select_top_quantile [(Symbol ''IBM'', 1 / 10)] warm_self
     = (Unchanged, warm_self\<lparr>selected_symbols := []\<rparr>)
   \<and> fst (CoarseSelectionFunction example_coarse warm_self) = Inr Unchanged
   \<and> selected_symbols (snd (CoarseSelectionFunction example_coarse warm_self)) = []"
proof -
  have h: "int (length [(Symbol ''IBM'', 1 / 10 :: rat)]) < quantile"
    by (simp add: quantile_def)
  have f: "selection_flag warm_self" by (simp add: warm_self_def)
  show ?thesis
    using too_few_scores_select_nothing[OF h, of warm_self example_coarse] f warm_pass
    by simp
qed

theorem NotReadyError_unreachable_witness:
  "performance (new_SymbolData period) = Inl NotReadyError
   \<and> fst (CoarseSelectionFunction example_coarse cold_self) \<noteq> Inl NotReadyError"
  using NotReadyError_unreachable[of example_coarse cold_self Map.empty "[]" "[]" "new_SymbolData period"]
  by (simp add: is_ready_def new_SymbolData_def period_def)

section \<open>Admission in DaysBefore\<close>

lemma entry_weight_value: "entry_weight = 1 / 15"
  by (simp add: entry_weight_def leverage_def free_margin_def managed_symbols_size_def)

lemma entry_weight_nonzero: "entry_weight \<noteq> 0"
  by (simp add: entry_weight_value)

lemma DaysBefore_loop_admitted:
  "\<exists>adm. managed_symbols (DaysBefore_loop tk sw lq syms self)
            = managed_symbols self @ map (new_ManagedSymbol sw lq) adm
       \<and> orders (DaysBefore_loop tk sw lq syms self)
            = orders self @ map (\<lambda>s. SetHoldingsOrder s entry_weight) adm
       \<and> (\<forall>s\<in>set adm. s \<in> set syms \<and> Value s \<in> set tk \<and> \<not> Invested self s
              \<and> Price self s \<noteq> 0 \<and> IsTradable self s)
       \<and> (adm \<noteq> [] \<longrightarrow> int (length (managed_symbols self)) < managed_symbols_size)
       \<and> (\<forall>s. Invested self s \<longrightarrow> Invested (DaysBefore_loop tk sw lq syms self) s)
       \<and> Price (DaysBefore_loop tk sw lq syms self) = Price self
       \<and> IsTradable (DaysBefore_loop tk sw lq syms self) = IsTradable self"
proof (induction syms arbitrary: self)
  case Nil
  show ?case by (rule exI[of _ "[]"]) simp
next
  case (Cons s rest)
  let ?admit = "Value s \<in> set tk \<and> int (length (managed_symbols self)) < managed_symbols_size
      \<and> \<not> Invested self s \<and> Price self s \<noteq> 0 \<and> IsTradable self s"
  show ?case
  proof (cases ?admit)
    case False
    then have eq: "DaysBefore_loop tk sw lq (s # rest) self = DaysBefore_loop tk sw lq rest self"
      by auto
    from Cons.IH[of self] obtain adm where
      a: "managed_symbols (DaysBefore_loop tk sw lq rest self)
            = managed_symbols self @ map (new_ManagedSymbol sw lq) adm"
         "orders (DaysBefore_loop tk sw lq rest self)
            = orders self @ map (\<lambda>s. SetHoldingsOrder s entry_weight) adm"
         "\<forall>s\<in>set adm. s \<in> set rest \<and> Value s \<in> set tk \<and> \<not> Invested self s
              \<and> Price self s \<noteq> 0 \<and> IsTradable self s"
         "adm \<noteq> [] \<longrightarrow> int (length (managed_symbols self)) < managed_symbols_size"
         "\<forall>s. Invested self s \<longrightarrow> Invested (DaysBefore_loop tk sw lq rest self) s"
         "Price (DaysBefore_loop tk sw lq rest self) = Price self"
         "IsTradable (DaysBefore_loop tk sw lq rest self) = IsTradable self"
      by blast
    show ?thesis unfolding eq by (rule exI[of _ adm]) (use a in auto)
  next
    case True
    define self1 where "self1 = (SetHoldings s entry_weight self)
        \<lparr>managed_symbols := managed_symbols self @ [new_ManagedSymbol sw lq s]\<rparr>"
    have eq: "DaysBefore_loop tk sw lq (s # rest) self = DaysBefore_loop tk sw lq rest self1"
      using True by (simp add: self1_def entry_weight_def new_ManagedSymbol_def)
    have inv1: "Invested self1 x = (x = s \<or> Invested self x)" for x
      using True by (auto simp: self1_def SetHoldings_def Invested_def entry_weight_nonzero)
    have f1: "managed_symbols self1 = managed_symbols self @ [new_ManagedSymbol sw lq s]"
      "orders self1 = orders self @ [SetHoldingsOrder s entry_weight]"
      "Price self1 = Price self" "IsTradable self1 = IsTradable self"
      by (simp_all add: self1_def SetHoldings_def)
    from Cons.IH[of self1] obtain adm where
      a: "managed_symbols (DaysBefore_loop tk sw lq rest self1)
            = managed_symbols self1 @ map (new_ManagedSymbol sw lq) adm"
         "orders (DaysBefore_loop tk sw lq rest self1)
            = orders self1 @ map (\<lambda>s. SetHoldingsOrder s entry_weight) adm"
         "\<forall>s\<in>set adm. s \<in> set rest \<and> Value s \<in> set tk \<and> \<not> Invested self1 s
              \<and> Price self1 s \<noteq> 0 \<and> IsTradable self1 s"
         "\<forall>s. Invested self1 s \<longrightarrow> Invested (DaysBefore_loop tk sw lq rest self1) s"
         "Price (DaysBefore_loop tk sw lq rest self1) = Price self1"
         "IsTradable (DaysBefore_loop tk sw lq rest self1) = IsTradable self1"
      by blast
    show ?thesis unfolding eq
      by (rule exI[of _ "s # adm"]) (use a True in \<open>auto simp: f1 inv1\<close>)
  qed
qed

lemma DaysBefore_loop_length:
  "int (length (managed_symbols self)) \<le> managed_symbols_size \<Longrightarrow>
   int (length (managed_symbols (DaysBefore_loop tk sw lq syms self))) \<le> managed_symbols_size"
  by (induction tk sw lq syms self rule: DaysBefore_loop.induct) (auto simp: SetHoldings_def)

lemma DaysBefore_loop_full:
  "managed_symbols_size \<le> int (length (managed_symbols self)) \<Longrightarrow>
   DaysBefore_loop tk sw lq syms self = self"
  by (induction syms) auto

section \<open>The business-day offset is monotone\<close>

lemma weekday_range: "0 \<le> weekday d \<and> weekday d < 7"
  by (simp add: weekday_def)

lemma business_day_step: "business_day d n \<le> business_day d (n + 1)"
proof -
  define w where "w = weekday d"
  define q where "q = n div 5"
  define r where "r = n mod 5"
  have n: "n = 5 * q + r" and r: "0 \<le> r" "r < 5" by (simp_all add: q_def r_def)
  have w: "0 \<le> w" "w < 7" using weekday_range[of d] by (simp_all add: w_def)
  have d1: "(5 * q + r) div 5 = q" using r by simp
  have d2: "(5 * q + r + 1) div 5 = (if r = 4 then q + 1 else q)"
    using r by (cases "r = 4") (simp_all add: div_pos_pos_trivial)
  show ?thesis
    unfolding business_day_def Let_def w_def[symmetric] n d1 d2
    using r w by (auto split: if_splits)
qed

lemma business_day_mono: "a \<le> b \<Longrightarrow> business_day d a \<le> business_day d b"
proof -
  assume "a \<le> b"
  then obtain k where b: "b = a + int k" by (metis zle_iff_zadd)
  have "business_day d a \<le> business_day d (a + int k)"
  proof (induction k)
    case 0
    then show ?case by simp
  next
    case (Suc k)
    have "business_day d (a + int k) \<le> business_day d (a + int k + 1)"
      by (rule business_day_step)
    with Suc have "business_day d a \<le> business_day d (a + int k + 1)" by (rule order_trans)
    then show ?case by (simp add: add.commute add.left_commute)
  qed
  then show ?thesis by (simp add: b)
qed

section \<open>What the handlers keep\<close>

lemma DaysBefore_loop_params:
  "switchDaysAfter (DaysBefore_loop tk sw lq syms self) = switchDaysAfter self
   \<and> sellDaysAfter (DaysBefore_loop tk sw lq syms self) = sellDaysAfter self"
  by (induction tk sw lq syms self rule: DaysBefore_loop.induct) (auto simp: SetHoldings_def)

lemma DaysBefore_params:
  "switchDaysAfter (DaysBefore L self) = switchDaysAfter self
   \<and> sellDaysAfter (DaysBefore L self) = sellDaysAfter self"
  by (simp add: DaysBefore_def Let_def DaysBefore_loop_params split: option.splits)

lemma DaysBefore_length:
  "int (length (managed_symbols self)) \<le> managed_symbols_size \<Longrightarrow>
   int (length (managed_symbols (DaysBefore L self))) \<le> managed_symbols_size"
  by (simp add: DaysBefore_def Let_def DaysBefore_loop_length split: option.splits)

lemma DaysBefore_full:
  "managed_symbols_size \<le> int (length (managed_symbols self)) \<Longrightarrow> DaysBefore L self = self"
  by (simp add: DaysBefore_def Let_def DaysBefore_loop_full split: option.splits)

lemma DaysBefore_admitted:
  "\<exists>adm. managed_symbols (DaysBefore L self)
            = managed_symbols self
              @ map (new_ManagedSymbol
                       (BDay L (BDay L (Time self) (buyDaysBefore self)) (switchDaysAfter self))
                       (BDay L (BDay L (Time self) (buyDaysBefore self)) (sellDaysAfter self))) adm
       \<and> orders (DaysBefore L self) = orders self @ map (\<lambda>s. SetHoldingsOrder s entry_weight) adm
       \<and> (\<forall>s\<in>set adm. s \<in> set (selected_symbols self) \<and> \<not> Invested self s
              \<and> Price self s \<noteq> 0 \<and> IsTradable self s)
       \<and> (adm \<noteq> [] \<longrightarrow> int (length (managed_symbols self)) < managed_symbols_size)"
proof (cases "earnings self (BDay L (Time self) (buyDaysBefore self))")
  case None
  then have "DaysBefore L self = self" by (simp add: DaysBefore_def)
  then show ?thesis by (intro exI[of _ "[]"]) simp
next
  case (Some tk)
  let ?sw = "BDay L (BDay L (Time self) (buyDaysBefore self)) (switchDaysAfter self)"
  let ?lq = "BDay L (BDay L (Time self) (buyDaysBefore self)) (sellDaysAfter self)"
  have eq: "DaysBefore L self = DaysBefore_loop tk ?sw ?lq (selected_symbols self) self"
    by (simp add: DaysBefore_def Some Let_def)
  from DaysBefore_loop_admitted[of tk ?sw ?lq "selected_symbols self" self]
  obtain adm where
    "managed_symbols (DaysBefore_loop tk ?sw ?lq (selected_symbols self) self)
        = managed_symbols self @ map (new_ManagedSymbol ?sw ?lq) adm"
    "orders (DaysBefore_loop tk ?sw ?lq (selected_symbols self) self)
        = orders self @ map (\<lambda>s. SetHoldingsOrder s entry_weight) adm"
    "\<forall>s\<in>set adm. s \<in> set (selected_symbols self) \<and> Value s \<in> set tk \<and> \<not> Invested self s
        \<and> Price self s \<noteq> 0 \<and> IsTradable self s"
    "adm \<noteq> [] \<longrightarrow> int (length (managed_symbols self)) < managed_symbols_size"
    by blast
  then show ?thesis unfolding eq by (intro exI[of _ adm]) simp
qed

lemma OnData_loop_to_delete:
  "fst (OnData_loop c ms del self) = del @ filter (\<lambda>m. date_to_liquidate m \<le> c) ms"
  by (induction c ms del self rule: OnData_loop.induct) auto

lemma OnData_to_delete_present:
  "mset (fst (OnData_loop c ms [] self)) \<subseteq># mset ms"
  by (simp add: OnData_loop_to_delete)

lemma OnData_loop_managed:
  "managed_symbols (snd (OnData_loop c ms del self)) = managed_symbols self"
  by (induction c ms del self rule: OnData_loop.induct) (auto simp: SetHoldings_def Liquidate_def)

lemma OnData_loop_params:
  "switchDaysAfter (snd (OnData_loop c ms del self)) = switchDaysAfter self
   \<and> sellDaysAfter (snd (OnData_loop c ms del self)) = sellDaysAfter self"
  by (induction c ms del self rule: OnData_loop.induct) (auto simp: SetHoldings_def Liquidate_def)

lemma fold_remove1_filter:
  "\<forall>y\<in>set ys. \<not> P y \<Longrightarrow> fold remove1 (filter P xs) (ys @ xs) = ys @ filter (\<lambda>x. \<not> P x) xs"
proof (induction xs arbitrary: ys)
  case Nil
  then show ?case by simp
next
  case (Cons x xs)
  show ?case
  proof (cases "P x")
    case True
    with Cons.prems have "x \<notin> set ys" by blast
    then have "remove1 x (ys @ x # xs) = ys @ xs" by (simp add: remove1_append)
    then show ?thesis using True Cons.IH[OF Cons.prems] by simp
  next
    case False
    with Cons.prems have "\<forall>y\<in>set (ys @ [x]). \<not> P y" by simp
    from Cons.IH[OF this] show ?thesis using False by simp
  qed
qed

lemma OnData_managed:
  "managed_symbols (OnData self)
     = filter (\<lambda>m. \<not> date_to_liquidate m \<le> Time self) (managed_symbols self)"
proof -
  obtain del self1 where l: "OnData_loop (Time self) (managed_symbols self) [] self = (del, self1)"
    by (cases "OnData_loop (Time self) (managed_symbols self) [] self") auto
  have d: "del = filter (\<lambda>m. date_to_liquidate m \<le> Time self) (managed_symbols self)"
    using OnData_loop_to_delete[of "Time self" "managed_symbols self" "[]" self] by (simp add: l)
  have m: "managed_symbols self1 = managed_symbols self"
    using OnData_loop_managed[of "Time self" "managed_symbols self" "[]" self] by (simp add: l)
  have "fold remove1 (filter (\<lambda>m. date_to_liquidate m \<le> Time self) (managed_symbols self))
          ([] @ managed_symbols self)
      = [] @ filter (\<lambda>m. \<not> date_to_liquidate m \<le> Time self) (managed_symbols self)"
    by (rule fold_remove1_filter) simp
  then show ?thesis by (simp add: OnData_def l d m)
qed

lemma OnData_params:
  "switchDaysAfter (OnData self) = switchDaysAfter self
   \<and> sellDaysAfter (OnData self) = sellDaysAfter self"
  using OnData_loop_params[of "Time self" "managed_symbols self" "[]" self]
  by (auto simp: OnData_def split: prod.splits)

lemma CoarseSelectionFunction_keeps:
  "managed_symbols (snd (CoarseSelectionFunction coarse self)) = managed_symbols self
   \<and> switchDaysAfter (snd (CoarseSelectionFunction coarse self)) = switchDaysAfter self
   \<and> sellDaysAfter (snd (CoarseSelectionFunction coarse self)) = sellDaysAfter self"
  by (simp add: CoarseSelectionFunction_def Let_def select_top_quantile_def
      split: sum.splits prod.splits)

lemma LoadEarningsData_keeps:
  "managed_symbols (snd (LoadEarningsData L feed self)) = managed_symbols self
   \<and> switchDaysAfter (snd (LoadEarningsData L feed self)) = switchDaysAfter self
   \<and> sellDaysAfter (snd (LoadEarningsData L feed self)) = sellDaysAfter self"
  by (simp add: LoadEarningsData_def split: prod.splits option.splits)

lemma step_length:
  assumes "int (length (managed_symbols self)) \<le> managed_symbols_size"
  shows "int (length (managed_symbols (snd (step L ev self)))) \<le> managed_symbols_size"
proof (cases ev)
  case (CallCoarseSelection coarse)
  then show ?thesis using assms CoarseSelectionFunction_keeps[of coarse self]
    by (auto split: prod.splits sum.splits)
next
  case CallDaysBefore
  then show ?thesis using assms by (simp add: DaysBefore_length)
next
  case CallOnData
  have "int (length (filter (\<lambda>m. \<not> date_to_liquidate m \<le> Time self) (managed_symbols self)))
      \<le> int (length (managed_symbols self))" by simp
  with assms have "int (length (filter (\<lambda>m. \<not> date_to_liquidate m \<le> Time self) (managed_symbols self)))
      \<le> managed_symbols_size" by (rule order_trans[rotated])
  then show ?thesis using CallOnData by (simp add: OnData_managed)
next
  case (CallLoadEarningsData feed)
  then show ?thesis using assms by (simp add: LoadEarningsData_keeps)
qed (use assms in \<open>simp_all add: Selection_def Let_def\<close>)

lemma run_length:
  "int (length (managed_symbols self)) \<le> managed_symbols_size \<Longrightarrow>
   int (length (managed_symbols (run L evs self))) \<le> managed_symbols_size"
proof (induction evs arbitrary: self)
  case Nil
  then show ?case by simp
next
  case (Cons ev evs)
  obtain r self1 where s: "step L ev self = (r, self1)" by (cases "step L ev self") auto
  from step_length[OF Cons.prems, of L ev] have l: "int (length (managed_symbols self1)) \<le> managed_symbols_size"
    by (simp add: s)
  show ?case using l Cons.IH[OF l] by (cases r) (simp_all add: s)
qed

lemma Initialize_fields:
  "managed_symbols (snd (Initialize L feed self)) = []
   \<and> switchDaysAfter (snd (Initialize L feed self)) = GetParameter self ''switchDaysAfter''
   \<and> sellDaysAfter (snd (Initialize L feed self)) = GetParameter self ''sellDaysAfter''"
proof -
  define self1 where "self1 = self\<lparr>buyDaysBefore := GetParameter self ''buyDaysBefore'',
                       sellDaysAfter := GetParameter self ''sellDaysAfter'',
                       switchDaysAfter := GetParameter self ''switchDaysAfter'',
                       data := Map.empty, selected_symbols := [], managed_symbols := []\<rparr>"
  obtain r self2 where l: "LoadEarningsData L feed self1 = (r, self2)"
    by (cases "LoadEarningsData L feed self1") auto
  from LoadEarningsData_keeps[of L feed self1]
  have k1: "managed_symbols self2 = managed_symbols self1"
    "switchDaysAfter self2 = switchDaysAfter self1"
    "sellDaysAfter self2 = sellDaysAfter self1"
    by (simp_all add: l)
  have k: "managed_symbols self2 = []"
    "switchDaysAfter self2 = GetParameter self ''switchDaysAfter''"
    "sellDaysAfter self2 = GetParameter self ''sellDaysAfter''"
    unfolding k1 by (simp_all add: self1_def)
  have "Initialize L feed self =
      (case r of Some err \<Rightarrow> (Some err, self2)
       | None \<Rightarrow> (None, self2\<lparr>months_counter := 0, selection_flag := True\<rparr>))"
    by (simp add: Initialize_def Let_def self1_def[symmetric] l)
  then show ?thesis using k by (cases r) simp_all
qed

section \<open>The loop of OnData\<close>


lemma OnData_loop_other:
  "\<forall>m\<in>set ms. symbol m \<noteq> s \<Longrightarrow>
   Holdings (snd (OnData_loop c ms del self)) s = Holdings self s
   \<and> orders_for s (snd (OnData_loop c ms del self)) = orders_for s self"
  by (induction c ms del self rule: OnData_loop.induct)
     (auto simp: SetHoldings_def Liquidate_def orders_for_def)

lemma exit_weight: "of_int (- 1 * (leverage - free_margin)) / of_int managed_symbols_size = - entry_weight"
  by (simp add: entry_weight_def leverage_def free_margin_def managed_symbols_size_def)

lemma OnData_loop_Cons:
  "OnData_loop c (m # rest) del self =
     (if date_to_switch m \<le> c \<and> c < date_to_liquidate m \<and> IsLong self (symbol m)
      then OnData_loop c rest del (SetHoldings (symbol m) (- entry_weight) self)
      else if date_to_liquidate m \<le> c
      then OnData_loop c rest (del @ [m]) (Liquidate (symbol m) self)
      else OnData_loop c rest del self)"
  by (simp only: OnData_loop.simps exit_weight)

lemma OnData_loop_orders:
  "\<exists>new. orders (snd (OnData_loop c ms del self)) = orders self @ new
     \<and> (\<forall>ord\<in>set new. order_weight ord = None \<or> order_weight ord = Some (- entry_weight))"
proof (induction c ms del self rule: OnData_loop.induct)
  case (1 c del self)
  show ?case by (rule exI[of _ "[]"]) simp
next
  case (2 c m rest del self)
  let ?flip = "date_to_switch m \<le> c \<and> c < date_to_liquidate m \<and> IsLong self (symbol m)"
  show ?case
  proof (cases ?flip)
    case True
    let ?s1 = "SetHoldings (symbol m) (- entry_weight) self"
    have eq: "OnData_loop c (m # rest) del self = OnData_loop c rest del ?s1"
      using True by (simp add: OnData_loop_Cons del: OnData_loop.simps(2))
    from "2.IH"(1) True obtain new where
      n: "orders (snd (OnData_loop c rest del ?s1)) = orders ?s1 @ new"
         "\<forall>ord\<in>set new. order_weight ord = None \<or> order_weight ord = Some (- entry_weight)"
      unfolding exit_weight by auto
    show ?thesis unfolding eq
      by (rule exI[of _ "SetHoldingsOrder (symbol m) (- entry_weight) # new"])
         (use n in \<open>simp add: SetHoldings_def\<close>)
  next
    case False
    note nf = this
    show ?thesis
    proof (cases "date_to_liquidate m \<le> c")
      case True
      let ?s1 = "Liquidate (symbol m) self"
      have eq: "OnData_loop c (m # rest) del self = OnData_loop c rest (del @ [m]) ?s1"
        using True nf by auto
      from "2.IH"(2) True nf obtain new where
        n: "orders (snd (OnData_loop c rest (del @ [m]) ?s1)) = orders ?s1 @ new"
           "\<forall>ord\<in>set new. order_weight ord = None \<or> order_weight ord = Some (- entry_weight)"
        by auto
      show ?thesis unfolding eq
        by (rule exI[of _ "LiquidateOrder (symbol m) # new"]) (use n in \<open>simp add: Liquidate_def\<close>)
    next
      case False
      have eq: "OnData_loop c (m # rest) del self = OnData_loop c rest del self"
        using False nf by auto
      from "2.IH"(3) False nf show ?thesis unfolding eq by auto
    qed
  qed
qed

lemma OnData_fields:
  "orders (OnData self) = orders (snd (OnData_loop (Time self) (managed_symbols self) [] self))
   \<and> Holdings (OnData self) = Holdings (snd (OnData_loop (Time self) (managed_symbols self) [] self))"
  by (simp add: OnData_def split: prod.splits)

section \<open>The sample run\<close>

lemma example_load:
  "load_objs example_lib example_feed (Map.empty, [], {}) =
     (None, [738529 \<mapsto> [''IBM''], 738522 \<mapsto> [''NVDA'']],
      [business_day 738522 (- 5), business_day 738529 (- 5), business_day 738522 (- 5)],
      {''NVDA'', ''IBM'', ''MSFT'', ''AAPL''})"
  by (simp add: example_feed_def example_lib_def example_strptime_def)

lemma business_day_examples:
  "business_day 738515 5 = 738522" "business_day 738522 3 = 738525"
  "business_day 738522 8 = 738532"
  by (simp_all add: business_day_def weekday_def Let_def)

lemma ready_self_fields:
  "Time ready_self = 738515" "buyDaysBefore ready_self = 5" "sellDaysAfter ready_self = 8"
  "switchDaysAfter ready_self = 3" "managed_symbols ready_self = []" "orders ready_self = []"
  "selected_symbols ready_self = [Symbol ''NVDA'', Symbol ''IBM'']"
  "earnings ready_self = [738529 \<mapsto> [''IBM''], 738522 \<mapsto> [''NVDA'']]"
  "Holdings ready_self = (\<lambda>s. 0)" "Price ready_self = (\<lambda>s. 10)" "IsTradable ready_self = (\<lambda>s. True)"
  by (simp_all add: ready_self_def Initialize_def LoadEarningsData_def example_load Let_def
      example_self_def)

lemma pos_self_eq:
  "pos_self = ready_self\<lparr>Holdings := (\<lambda>s. 0)(Symbol ''NVDA'' := 1 / 15),
                         orders := [SetHoldingsOrder (Symbol ''NVDA'') (1 / 15)],
                         managed_symbols := [example_position]\<rparr>"
  by (simp add: pos_self_def DaysBefore_def Let_def ready_self_fields example_lib_def
      business_day_examples Invested_def SetHoldings_def example_position_def
      leverage_def free_margin_def managed_symbols_size_def)

section \<open>Capacity and the order of the two dates\<close>

lemma step_ordered:
  assumes mono: "\<forall>d a b. a \<le> b \<longrightarrow> BDay L d a \<le> BDay L d b"
    and par: "switchDaysAfter self \<le> sellDaysAfter self"
    and ord: "ordered_dates self"
  shows "switchDaysAfter (snd (step L ev self)) \<le> sellDaysAfter (snd (step L ev self))
       \<and> ordered_dates (snd (step L ev self))"
proof (cases ev)
  case (CallCoarseSelection coarse)
  then show ?thesis using par ord CoarseSelectionFunction_keeps[of coarse self]
    by (auto simp: ordered_dates_def split: prod.splits sum.splits)
next
  case CallDaysBefore
  let ?e = "BDay L (Time self) (buyDaysBefore self)"
  from DaysBefore_admitted[of L self] obtain adm where
    a: "managed_symbols (DaysBefore L self) = managed_symbols self
          @ map (new_ManagedSymbol (BDay L ?e (switchDaysAfter self)) (BDay L ?e (sellDaysAfter self))) adm"
    by blast
  have "BDay L ?e (switchDaysAfter self) \<le> BDay L ?e (sellDaysAfter self)"
    using mono par by blast
  then have "ordered_dates (DaysBefore L self)"
    using ord by (auto simp: ordered_dates_def a list_all_iff new_ManagedSymbol_def)
  then show ?thesis using CallDaysBefore par by (simp add: DaysBefore_params)
next
  case CallOnData
  have "ordered_dates (OnData self)"
    using ord by (simp add: ordered_dates_def OnData_managed list_all_iff)
  then show ?thesis using CallOnData par by (simp add: OnData_params)
next
  case (CallLoadEarningsData feed)
  then show ?thesis using par ord by (simp add: LoadEarningsData_keeps ordered_dates_def)
qed (use par ord in \<open>simp_all add: Selection_def Let_def ordered_dates_def\<close>)

lemma run_ordered:
  assumes mono: "\<forall>d a b. a \<le> b \<longrightarrow> BDay L d a \<le> BDay L d b"
  shows "switchDaysAfter self \<le> sellDaysAfter self \<Longrightarrow> ordered_dates self \<Longrightarrow>
         ordered_dates (run L evs self)"
proof (induction evs arbitrary: self)
  case Nil
  then show ?case by simp
next
  case (Cons ev evs)
  obtain r self1 where s: "step L ev self = (r, self1)" by (cases "step L ev self") auto
  from step_ordered[OF mono Cons.prems, of ev]
  have i: "switchDaysAfter self1 \<le> sellDaysAfter self1" "ordered_dates self1"
    by (simp_all add: s)
  show ?case using i Cons.IH[OF i] by (cases r) (simp_all add: s)
qed

text \<open>
  Claim C3: the managed set never holds more than \<open>managed_symbols_size\<close> positions, after \<^verbatim>\<open>Initialize\<close> and any sequence of events, and from any state within the bound; at capacity \<^verbatim>\<open>DaysBefore\<close> changes nothing (no order, no position); a position is added only from a size strictly below capacity.
\<close>

theorem managed_set_bounded:
  "int (length (managed_symbols (run L evs (snd (Initialize L feed self))))) \<le> managed_symbols_size
   \<and> (int (length (managed_symbols st)) \<le> managed_symbols_size \<longrightarrow>
        int (length (managed_symbols (run L evs st))) \<le> managed_symbols_size)
   \<and> (managed_symbols_size \<le> int (length (managed_symbols st)) \<longrightarrow> DaysBefore L st = st)
   \<and> (managed_symbols (DaysBefore L st) \<noteq> managed_symbols st \<longrightarrow>
        int (length (managed_symbols st)) < managed_symbols_size)"
proof -
  have "int (length (managed_symbols (snd (Initialize L feed self)))) \<le> managed_symbols_size"
    by (simp add: Initialize_fields managed_symbols_size_def)
  then have a: "int (length (managed_symbols (run L evs (snd (Initialize L feed self)))))
      \<le> managed_symbols_size"
    by (rule run_length)
  have c: "managed_symbols_size \<le> int (length (managed_symbols st)) \<longrightarrow> DaysBefore L st = st"
    by (simp add: DaysBefore_full)
  then have d: "managed_symbols (DaysBefore L st) \<noteq> managed_symbols st \<longrightarrow>
        int (length (managed_symbols st)) < managed_symbols_size"
    by (cases "managed_symbols_size \<le> int (length (managed_symbols st))") auto
  show ?thesis using a c d run_length[of st L evs] by blast
qed

theorem managed_set_bounded_witness:
  "int (length (managed_symbols (run example_lib [CallDaysBefore, CallOnData]
          (snd (Initialize example_lib example_feed example_self))))) \<le> managed_symbols_size
   \<and> managed_symbols_size \<le> int (length (managed_symbols full_self))
   \<and> DaysBefore example_lib full_self = full_self
   \<and> int (length (managed_symbols (run example_lib [CallDaysBefore, CallDaysBefore] full_self)))
        \<le> managed_symbols_size"
proof -
  have f: "managed_symbols_size \<le> int (length (managed_symbols full_self))"
    "int (length (managed_symbols full_self)) \<le> managed_symbols_size"
    by (simp_all add: full_self_def managed_symbols_size_def)
  show ?thesis
    using managed_set_bounded[of example_lib "[CallDaysBefore, CallOnData]" example_feed example_self full_self]
      managed_set_bounded[of example_lib "[CallDaysBefore, CallDaysBefore]" example_feed example_self full_self]
      f
    by blast
qed

text \<open>
  Claim C5: when the business-day offset is monotone in the number of days and \<open>switchDaysAfter \<le> sellDaysAfter\<close>, every managed position the algorithm ever holds has its switch date no later than its liquidation date: after \<^verbatim>\<open>Initialize\<close> and any sequence of events, from any state that satisfies it, and for each position one call of \<^verbatim>\<open>DaysBefore\<close> adds.
\<close>

theorem switch_not_after_liquidate:
  assumes "\<forall>d a b. a \<le> b \<longrightarrow> BDay L d a \<le> BDay L d b"
  shows "(GetParameter self ''switchDaysAfter'' \<le> GetParameter self ''sellDaysAfter'' \<longrightarrow>
            ordered_dates (run L evs (snd (Initialize L feed self))))
       \<and> (switchDaysAfter st \<le> sellDaysAfter st \<and> ordered_dates st \<longrightarrow>
            ordered_dates (run L evs st))
       \<and> (switchDaysAfter st \<le> sellDaysAfter st \<longrightarrow>
            (\<forall>m\<in>set (drop (length (managed_symbols st)) (managed_symbols (DaysBefore L st))).
               date_to_switch m \<le> date_to_liquidate m))"
proof -
  have i: "ordered_dates (snd (Initialize L feed self))"
    by (simp add: ordered_dates_def Initialize_fields)
  have a: "GetParameter self ''switchDaysAfter'' \<le> GetParameter self ''sellDaysAfter'' \<longrightarrow>
            ordered_dates (run L evs (snd (Initialize L feed self)))"
    using run_ordered[OF assms _ i, of evs] by (simp add: Initialize_fields)
  have b: "switchDaysAfter st \<le> sellDaysAfter st \<and> ordered_dates st \<longrightarrow>
            ordered_dates (run L evs st)"
    using run_ordered[OF assms, of st evs] by blast
  let ?e = "BDay L (Time st) (buyDaysBefore st)"
  from DaysBefore_admitted[of L st] obtain adm where
    m: "managed_symbols (DaysBefore L st) = managed_symbols st
          @ map (new_ManagedSymbol (BDay L ?e (switchDaysAfter st)) (BDay L ?e (sellDaysAfter st))) adm"
    by blast
  have c: "switchDaysAfter st \<le> sellDaysAfter st \<longrightarrow>
            (\<forall>m\<in>set (drop (length (managed_symbols st)) (managed_symbols (DaysBefore L st))).
               date_to_switch m \<le> date_to_liquidate m)"
    using assms by (auto simp: m new_ManagedSymbol_def)
  show ?thesis using a b c by blast
qed

lemma example_lib_mono: "\<forall>d a b. a \<le> b \<longrightarrow> BDay example_lib d a \<le> BDay example_lib d b"
  by (simp add: example_lib_def business_day_mono)

theorem switch_not_after_liquidate_witness:
  "switchDaysAfter ready_self \<le> sellDaysAfter ready_self
   \<and> managed_symbols (run example_lib [CallDaysBefore] ready_self) = [example_position]
   \<and> ordered_dates (run example_lib [CallDaysBefore] ready_self)
   \<and> date_to_switch example_position \<le> date_to_liquidate example_position"
proof -
  have p: "switchDaysAfter ready_self \<le> sellDaysAfter ready_self"
    by (simp add: ready_self_fields)
  have o: "ordered_dates ready_self"
    by (simp add: ordered_dates_def ready_self_fields)
  have r: "run example_lib [CallDaysBefore] ready_self = pos_self"
    by (simp add: pos_self_def)
  have od: "ordered_dates (run example_lib [CallDaysBefore] ready_self)"
    using switch_not_after_liquidate[OF example_lib_mono, of example_self "[CallDaysBefore]" example_feed ready_self] p o
    by blast
  have m: "managed_symbols pos_self = [example_position]"
    by (simp add: pos_self_eq)
  from od have "date_to_switch example_position \<le> date_to_liquidate example_position"
    unfolding r by (simp add: ordered_dates_def m)
  then show ?thesis using p od unfolding r by (simp add: m)
qed

section \<open>Sizing and invested symbols\<close>

text \<open>
  Claim C7: every order \<^verbatim>\<open>DaysBefore\<close> places targets the weight \<open>(leverage - free_margin) / managed_symbols_size\<close>, and every order \<^verbatim>\<open>OnData\<close> places is a liquidation or targets the negation of that weight.
\<close>

theorem slot_sizing:
  "(\<forall>ord\<in>set (drop (length (orders self)) (orders (DaysBefore L self))).
        order_weight ord = Some (of_int (leverage - free_margin) / of_int managed_symbols_size))
   \<and> take (length (orders self)) (orders (DaysBefore L self)) = orders self
   \<and> (\<forall>ord\<in>set (drop (length (orders self)) (orders (OnData self))).
        order_weight ord = None
        \<or> order_weight ord = Some (- (of_int (leverage - free_margin) / of_int managed_symbols_size)))
   \<and> take (length (orders self)) (orders (OnData self)) = orders self"
proof -
  from DaysBefore_admitted[of L self] obtain adm where
    a: "orders (DaysBefore L self) = orders self @ map (\<lambda>s. SetHoldingsOrder s entry_weight) adm"
    by blast
  from OnData_loop_orders[of "Time self" "managed_symbols self" "[]" self] obtain new where
    n: "orders (snd (OnData_loop (Time self) (managed_symbols self) [] self)) = orders self @ new"
       "\<forall>ord\<in>set new. order_weight ord = None \<or> order_weight ord = Some (- entry_weight)"
    by blast
  have o: "orders (OnData self) = orders self @ new"
    using OnData_fields[of self] n(1) by simp
  have e: "of_int (leverage - free_margin) / of_int managed_symbols_size = entry_weight"
    by (simp add: entry_weight_def)
  show ?thesis unfolding e using n(2) by (auto simp: a o)
qed

theorem slot_sizing_witness:
  "orders (DaysBefore example_lib ready_self) = [SetHoldingsOrder (Symbol ''NVDA'') (1 / 15)]
   \<and> order_weight (SetHoldingsOrder (Symbol ''NVDA'') (1 / 15))
       = Some (of_int (leverage - free_margin) / of_int managed_symbols_size)
   \<and> orders (OnData (pos_self\<lparr>Time := 738525\<rparr>))
       = [SetHoldingsOrder (Symbol ''NVDA'') (1 / 15), SetHoldingsOrder (Symbol ''NVDA'') (- (1 / 15))]
   \<and> order_weight (SetHoldingsOrder (Symbol ''NVDA'') (- (1 / 15)))
       = Some (- (of_int (leverage - free_margin) / of_int managed_symbols_size))"
proof -
  have d: "orders (DaysBefore example_lib ready_self) = [SetHoldingsOrder (Symbol ''NVDA'') (1 / 15)]"
    unfolding pos_self_def[symmetric] by (simp add: pos_self_eq)
  have f: "orders (OnData (pos_self\<lparr>Time := 738525\<rparr>))
       = [SetHoldingsOrder (Symbol ''NVDA'') (1 / 15), SetHoldingsOrder (Symbol ''NVDA'') (- (1 / 15))]"
    by (simp add: OnData_def pos_self_eq example_position_def IsLong_def SetHoldings_def
        leverage_def free_margin_def managed_symbols_size_def)
  have r: "orders ready_self = []" by (simp add: ready_self_fields)
  have p: "orders (pos_self\<lparr>Time := 738525\<rparr>) = [SetHoldingsOrder (Symbol ''NVDA'') (1 / 15)]"
    by (simp add: pos_self_eq)
  note w1 = slot_sizing[of ready_self example_lib]
  note w2 = slot_sizing[of "pos_self\<lparr>Time := 738525\<rparr>" example_lib]
  from w1 have a: "order_weight (SetHoldingsOrder (Symbol ''NVDA'') (1 / 15))
       = Some (of_int (leverage - free_margin) / of_int managed_symbols_size)"
    unfolding d r by simp
  from w2 have "order_weight (SetHoldingsOrder (Symbol ''NVDA'') (- (1 / 15))) = None
      \<or> order_weight (SetHoldingsOrder (Symbol ''NVDA'') (- (1 / 15)))
       = Some (- (of_int (leverage - free_margin) / of_int managed_symbols_size))"
    unfolding f p by simp
  then have b: "order_weight (SetHoldingsOrder (Symbol ''NVDA'') (- (1 / 15)))
       = Some (- (of_int (leverage - free_margin) / of_int managed_symbols_size))"
    by simp
  show ?thesis using d f a b by blast
qed

text \<open>
  Claim C9: a symbol the host reports as invested gets no new managed position and no new order from \<^verbatim>\<open>DaysBefore\<close>; every position \<^verbatim>\<open>DaysBefore\<close> adds is for a symbol that was not invested, had a non-zero price and was tradable, and is added from a size below capacity.
\<close>

theorem invested_symbol_skipped:
  "(Invested self s \<longrightarrow>
       positions_for s (DaysBefore L self) = positions_for s self
       \<and> orders_for s (DaysBefore L self) = orders_for s self)
   \<and> (\<forall>m\<in>set (drop (length (managed_symbols self)) (managed_symbols (DaysBefore L self))).
         \<not> Invested self (symbol m) \<and> Price self (symbol m) \<noteq> 0 \<and> IsTradable self (symbol m)
         \<and> int (length (managed_symbols self)) < managed_symbols_size)
   \<and> take (length (managed_symbols self)) (managed_symbols (DaysBefore L self)) = managed_symbols self"
proof -
  let ?e = "BDay L (Time self) (buyDaysBefore self)"
  from DaysBefore_admitted[of L self] obtain adm where
    m: "managed_symbols (DaysBefore L self) = managed_symbols self
          @ map (new_ManagedSymbol (BDay L ?e (switchDaysAfter self)) (BDay L ?e (sellDaysAfter self))) adm"
    and o: "orders (DaysBefore L self) = orders self @ map (\<lambda>s. SetHoldingsOrder s entry_weight) adm"
    and c: "\<forall>s\<in>set adm. s \<in> set (selected_symbols self) \<and> \<not> Invested self s
              \<and> Price self s \<noteq> 0 \<and> IsTradable self s"
    and n: "adm \<noteq> [] \<longrightarrow> int (length (managed_symbols self)) < managed_symbols_size"
    by blast
  have a: "Invested self s \<longrightarrow>
       positions_for s (DaysBefore L self) = positions_for s self
       \<and> orders_for s (DaysBefore L self) = orders_for s self"
  proof
    assume i: "Invested self s"
    with c have "s \<notin> set adm" by blast
    then have "filter (\<lambda>m. symbol m = s) (map (new_ManagedSymbol (BDay L ?e (switchDaysAfter self)) (BDay L ?e (sellDaysAfter self))) adm) = []"
      and "filter (\<lambda>ord. order_symbol ord = s) (map (\<lambda>s. SetHoldingsOrder s entry_weight) adm) = []"
      by (auto simp: filter_empty_conv new_ManagedSymbol_def)
    then show "positions_for s (DaysBefore L self) = positions_for s self
       \<and> orders_for s (DaysBefore L self) = orders_for s self"
      by (simp add: positions_for_def orders_for_def m o)
  qed
  have b: "\<forall>m\<in>set (drop (length (managed_symbols self)) (managed_symbols (DaysBefore L self))).
         \<not> Invested self (symbol m) \<and> Price self (symbol m) \<noteq> 0 \<and> IsTradable self (symbol m)
         \<and> int (length (managed_symbols self)) < managed_symbols_size"
    using c n by (auto simp: m new_ManagedSymbol_def)
  show ?thesis using a b by (simp add: m)
qed

theorem invested_symbol_skipped_witness:
  "Invested held_self (Symbol ''NVDA'')
   \<and> positions_for (Symbol ''NVDA'') (DaysBefore example_lib held_self) = []
   \<and> orders_for (Symbol ''NVDA'') (DaysBefore example_lib held_self) = []
   \<and> managed_symbols (DaysBefore example_lib ready_self) = [example_position]
   \<and> \<not> Invested ready_self (Symbol ''NVDA'')"
proof -
  have i: "Invested held_self (Symbol ''NVDA'')"
    by (simp add: held_self_def Invested_def)
  have e: "positions_for (Symbol ''NVDA'') held_self = []" "orders_for (Symbol ''NVDA'') held_self = []"
    by (simp_all add: held_self_def positions_for_def orders_for_def ready_self_fields)
  have m: "managed_symbols (DaysBefore example_lib ready_self) = [example_position]"
    unfolding pos_self_def[symmetric] by (simp add: pos_self_eq)
  have r: "managed_symbols ready_self = []" by (simp add: ready_self_fields)
  from invested_symbol_skipped[of held_self "Symbol ''NVDA''" example_lib] i e
  have a: "positions_for (Symbol ''NVDA'') (DaysBefore example_lib held_self) = []
      \<and> orders_for (Symbol ''NVDA'') (DaysBefore example_lib held_self) = []"
    by simp
  from invested_symbol_skipped[of ready_self "Symbol ''NVDA''" example_lib]
  have "\<not> Invested ready_self (symbol example_position)"
    unfolding m r by simp
  then have b: "\<not> Invested ready_self (Symbol ''NVDA'')" by (simp add: example_position_def)
  show ?thesis using i a m b by blast
qed

section \<open>The life of a managed position\<close>




text \<open>
  When no earlier position has the symbol, what the host reports at the turn of a position
  is what it reported when the tick began.
\<close>

lemma reached_other:
  "\<forall>m'\<in>set pre. symbol m' \<noteq> s \<Longrightarrow> IsLong (reached pre self) s = IsLong self s"
  using OnData_loop_other[of pre s "Time self" "[]" self] by (simp add: reached_def IsLong_def)












end
